theory Spec2Isabelle
  imports Complex_Main "HOL-Library.Log_Nat"
begin

section \<open>Text primitives\<close>

text \<open>
  A Python \<open>str\<close> is modelled as a \<open>string\<close>, the UTF-8 bytes of its text: every ASCII
  character is one \<open>char\<close>, the Euro sign is the three bytes \<open>E2 82 AC\<close>. The character
  classes below are the ASCII part of Python's \<open>\d\<close>, \<open>\s\<close>, \<open>\w\<close>, \<open>str.isdigit\<close>,
  \<open>str.strip\<close>, \<open>str.lower\<close> and \<open>str.upper\<close>; bytes above \<open>7F\<close> belong to no class and
  have no other case.
\<close>

definition is_digit :: "char \<Rightarrow> bool" where
  "is_digit c = (c \<in> set ''0123456789'')"

definition is_space :: "char \<Rightarrow> bool" where
  "is_space c = (c \<in> set [CHR 0x09, CHR 0x0A, CHR 0x0B, CHR 0x0C, CHR 0x0D,
                            CHR 0x1C, CHR 0x1D, CHR 0x1E, CHR 0x1F, CHR 0x20])"

definition is_upper :: "char \<Rightarrow> bool" where
  "is_upper c = (c \<in> set ''ABCDEFGHIJKLMNOPQRSTUVWXYZ'')"

definition is_lower :: "char \<Rightarrow> bool" where
  "is_lower c = (c \<in> set ''abcdefghijklmnopqrstuvwxyz'')"

definition is_word :: "char \<Rightarrow> bool" where
  "is_word c = (is_digit c \<or> is_upper c \<or> is_lower c \<or> c = CHR ''_'')"

definition lower_char :: "char \<Rightarrow> char" where
  "lower_char c =
     (case map_of (zip ''ABCDEFGHIJKLMNOPQRSTUVWXYZ'' ''abcdefghijklmnopqrstuvwxyz'') c of
        Some d \<Rightarrow> d | None \<Rightarrow> c)"

definition upper_char :: "char \<Rightarrow> char" where
  "upper_char c =
     (case map_of (zip ''abcdefghijklmnopqrstuvwxyz'' ''ABCDEFGHIJKLMNOPQRSTUVWXYZ'') c of
        Some d \<Rightarrow> d | None \<Rightarrow> c)"

definition lower :: "string \<Rightarrow> string" where
  "lower s = map lower_char s"

definition upper :: "string \<Rightarrow> string" where
  "upper s = map upper_char s"

text \<open>\<open>s.strip()\<close>: leading and trailing whitespace removed.\<close>

definition strip :: "string \<Rightarrow> string" where
  "strip s = rev (dropWhile is_space (rev (dropWhile is_space s)))"

text \<open>\<open>s.startswith(p)\<close>.\<close>

definition startswith :: "string \<Rightarrow> string \<Rightarrow> bool" where
  "startswith s p = (take (length p) s = p)"

text \<open>
  \<open>s.replace(old, new)\<close> for a non-empty \<open>old\<close>: the occurrences of \<open>old\<close> are replaced
  from left to right, without overlap.
\<close>

fun replace :: "string \<Rightarrow> string \<Rightarrow> string \<Rightarrow> string" where
  "replace old new [] = []"
| "replace old new (c # cs) =
     (if old \<noteq> [] \<and> take (length old) (c # cs) = old
      then new @ replace old new (drop (length old) (c # cs))
      else c # replace old new cs)"

section \<open>Phone numbers\<close>

text \<open>
  \<open>KontomanagerClient._normalize_phone_number\<close>: \<open>re.sub(r'[^\d]', '', number_str)\<close> keeps
  the digits of the input.
\<close>

definition normalize_phone_number :: "string \<Rightarrow> string" where
  "normalize_phone_number number_str =
     (if number_str = [] then []
      else let digits = filter is_digit number_str in
        if digits = [] then []
        else if startswith digits ''43'' then ''+'' @ digits
        else if startswith digits ''0'' then ''+43'' @ drop 1 digits
        else ''+43'' @ digits)"

section \<open>Regular expressions\<close>

text \<open>
  The patterns of \<open>client.py\<close> use literals, character classes, greedy repetition of a
  character class, \<open>?\<close>, alternation and capturing groups. \<open>rmatch\<close> is Python's
  backtracking matcher for them: it returns every way the pattern can match at the start
  of the text, in the order in which \<open>re\<close> tries them, each as the text left over and the
  groups captured. The first element is the match \<open>re\<close> reports.
\<close>

datatype regex =
    Epsilon
  | Chr char
  | Cls "char \<Rightarrow> bool"
  | Rep nat "char \<Rightarrow> bool"
  | Seq regex regex
  | Alt regex regex
  | Opt regex
  | Grp nat regex

type_synonym groups = "nat \<rightharpoonup> string"

text \<open>\<open>Rep n p\<close> is \<open>[p]*\<close> for \<open>n = 0\<close> and \<open>[p]+\<close> for \<open>n = 1\<close>: longest first.\<close>

fun rmatch :: "bool \<Rightarrow> regex \<Rightarrow> string \<Rightarrow> groups \<Rightarrow> (string \<times> groups) list" where
  "rmatch ic Epsilon s g = [(s, g)]"
| "rmatch ic (Chr a) s g =
     (case s of [] \<Rightarrow> []
      | x # xs \<Rightarrow> if (if ic then lower_char x = lower_char a else x = a) then [(xs, g)] else [])"
| "rmatch ic (Cls p) s g =
     (case s of [] \<Rightarrow> [] | x # xs \<Rightarrow> if p x then [(xs, g)] else [])"
| "rmatch ic (Rep n p) s g =
     map (\<lambda>k. (drop k s, g)) (rev [n ..< Suc (length (takeWhile p s))])"
| "rmatch ic (Seq r1 r2) s g =
     concat (map (\<lambda>(s', g'). rmatch ic r2 s' g') (rmatch ic r1 s g))"
| "rmatch ic (Alt r1 r2) s g = rmatch ic r1 s g @ rmatch ic r2 s g"
| "rmatch ic (Opt r) s g = rmatch ic r s g @ [(s, g)]"
| "rmatch ic (Grp n r) s g =
     map (\<lambda>(s', g'). (s', g'(n \<mapsto> take (length s - length s') s))) (rmatch ic r s g)"

text \<open>A literal string, and a sequence of patterns.\<close>

definition Lit :: "string \<Rightarrow> regex" where
  "Lit s = foldr (\<lambda>c r. Seq (Chr c) r) s Epsilon"

definition Seqs :: "regex list \<Rightarrow> regex" where
  "Seqs rs = foldr Seq rs Epsilon"

text \<open>
  \<open>re.search(pattern, text, flags)\<close>: the match at the leftmost position that has one;
  group 0 is the matched text. \<open>ic\<close> is \<open>re.IGNORECASE\<close>.
\<close>

fun re_search :: "bool \<Rightarrow> regex \<Rightarrow> string \<Rightarrow> groups option" where
  "re_search ic r [] = (case rmatch ic (Grp 0 r) [] Map.empty of [] \<Rightarrow> None | m # _ \<Rightarrow> Some (snd m))"
| "re_search ic r (c # cs) =
     (case rmatch ic (Grp 0 r) (c # cs) Map.empty of
        [] \<Rightarrow> re_search ic r cs
      | m # _ \<Rightarrow> Some (snd m))"

text \<open>\<open>match.group(n)\<close> of a group that took part in the match.\<close>

definition mgroup :: "groups \<Rightarrow> nat \<Rightarrow> string" where
  "mgroup m n = (case m n of Some s \<Rightarrow> s | None \<Rightarrow> [])"

text \<open>
  Two properties of a pattern, for reasoning about what its groups capture.
\<close>




section \<open>Floating-point numbers\<close>

text \<open>
  A Python \<open>float\<close> is an IEEE 754 double: a finite value (a rational), an infinity or
  NaN. \<open>round_double\<close> rounds a rational to the nearest double, ties to even: the unit in
  the last place of \<open>q\<close> is \<open>2 powi (max \<lfloor>log2 \<bar>q\<bar>\<rfloor> (-1022) - 52)\<close>. The sign of zero is
  not represented; \<open>==\<close> does not see it.
\<close>

datatype pyfloat = Fin rat | PInf | NInf | NaN

definition ilog2 :: "rat \<Rightarrow> int" where
  "ilog2 q = (let k = bitlen (fst (quotient_of q)) - bitlen (snd (quotient_of q))
              in if 2 powi k \<le> q then k else k - 1)"

definition round_half_even :: "rat \<Rightarrow> int" where
  "round_half_even q =
     (let f = \<lfloor>q\<rfloor>; d = q - of_int f
      in if d < 1 / 2 then f else if 1 / 2 < d then f + 1 else if even f then f else f + 1)"

definition ulp :: "rat \<Rightarrow> rat" where
  "ulp q = 2 powi (max (ilog2 \<bar>q\<bar>) (- 1022) - 52)"

definition round_double :: "rat \<Rightarrow> rat" where
  "round_double q = (if q = 0 then 0 else of_int (round_half_even (q / ulp q)) * ulp q)"

definition float_of_rat :: "rat \<Rightarrow> pyfloat" where
  "float_of_rat q =
     (let r = round_double q
      in if 2 ^ 1024 \<le> r then PInf else if r \<le> - (2 ^ 1024) then NInf else Fin r)"




section \<open>Decimal and usage-bar parsing\<close>

text \<open>
  \<open>float(token)\<close> for a token of the shape \<open>[-+]?\<close> digits \<open>(.\<close> digits\<open>)?\<close>: the decimal
  value of the token, rounded to the nearest double.
\<close>

definition digit_val :: "char \<Rightarrow> nat" where
  "digit_val c = (case map_of (zip ''0123456789'' [0, 1, 2, 3, 4, 5, 6, 7, 8, 9]) c of
                    Some d \<Rightarrow> d | None \<Rightarrow> 0)"

definition nat_of_digits :: "string \<Rightarrow> nat" where
  "nat_of_digits ds = foldl (\<lambda>a c. 10 * a + digit_val c) 0 ds"

definition dec_value :: "string \<Rightarrow> rat" where
  "dec_value tok =
     (let neg = (take 1 tok = ''-'');
          body = (if take 1 tok = ''-'' \<or> take 1 tok = ''+'' then drop 1 tok else tok);
          ip = takeWhile is_digit body;
          fp = drop 1 (dropWhile is_digit body);
          v = of_nat (nat_of_digits ip) + of_nat (nat_of_digits fp) / 10 ^ length fp
      in if neg then - v else v)"

definition float_of_str :: "string \<Rightarrow> pyfloat" where
  "float_of_str tok = float_of_rat (dec_value tok)"

text \<open>The UTF-8 bytes of the Euro sign.\<close>

definition euro :: string where
  "euro = [CHR 0xE2, CHR 0x82, CHR 0xAC]"

text \<open>The pattern \<open>[-+]?\d*\.?\d+\<close>.\<close>

definition number_re :: regex where
  "number_re = Seqs [Opt (Cls (\<lambda>c. c \<in> set ''-+'')), Rep 0 is_digit, Opt (Chr CHR ''.''),
                     Rep 1 is_digit]"

text \<open>\<open>KontomanagerClient._parse_number\<close>.\<close>

definition cleaned_text :: "string \<Rightarrow> string" where
  "cleaned_text text = strip (replace '','' ''.'' (replace ''.'' '''' (replace euro '''' text)))"

definition parse_number :: "string \<Rightarrow> pyfloat \<Rightarrow> pyfloat" where
  "parse_number text dflt =
     (if text = [] then dflt
      else case re_search False number_re (cleaned_text text) of
             Some m \<Rightarrow> float_of_str (mgroup m 0)
           | None \<Rightarrow> dflt)"

text \<open>
  The pattern \<open>Verbraucht:\s*([\d\.,]+)\s*\(von\s*([\d\.,]+|unlimited)\s*(\w+)\)?\<close> of
  \<open>KontomanagerClient._parse_usage_bar\<close>, searched with \<open>re.IGNORECASE\<close>. Where the source
  calls \<open>_parse_number\<close> with one argument the default is \<open>0.0\<close>.
\<close>

definition is_numch :: "char \<Rightarrow> bool" where
  "is_numch c = (is_digit c \<or> c = CHR ''.'' \<or> c = CHR '','')"

definition usage_re :: regex where
  "usage_re = Seqs [Lit ''Verbraucht:'', Rep 0 is_space, Grp 1 (Rep 1 is_numch), Rep 0 is_space,
                    Lit ''(von'', Rep 0 is_space, Grp 2 (Alt (Rep 1 is_numch) (Lit ''unlimited'')),
                    Rep 0 is_space, Grp 3 (Rep 1 is_word), Opt (Chr CHR '')'')]"

definition parse_usage_bar :: "string \<Rightarrow> pyfloat \<times> pyfloat \<times> string" where
  "parse_usage_bar text =
     (case re_search True usage_re text of
        Some m \<Rightarrow>
          let used = parse_number (mgroup m 1) (Fin 0);
              total_str = mgroup m 2;
              total = (if lower total_str = ''unlimited'' then PInf
                       else parse_number total_str (Fin 0));
              unit = mgroup m 3
          in (used, total, unit)
      | None \<Rightarrow> (Fin 0, Fin 0, []))"

section \<open>Domain model and library parameters\<close>

text \<open>The exceptions the modelled functions can raise.\<close>

datatype error =
    KontomanagerClientError
  | HTTPStatusError
  | ValueError
  | AttributeError
  | TypeError
  | ValidationError

text \<open>Warnings written to the log.\<close>

datatype warning =
    SkippedBillNoPdf
  | NoBillsFound
  | MissingTimestamp
  | BadTimestamp string

record pydate =
  year :: nat
  month :: nat
  day :: nat

record pydatetime = pydate +
  hour :: nat
  minute :: nat
  second :: nat

text \<open>
  What the modelled code takes from outside the repository: \<open>datetime.strptime\<close> for the
  two formats used (\<open>None\<close> where it raises \<open>ValueError\<close>), \<open>date.today()\<close>,
  \<open>urllib.parse.urljoin\<close> and the base URL of the settings.
\<close>

record library =
  strptime_date :: "string \<Rightarrow> pydate option"
  strptime_datetime :: "string \<Rightarrow> pydatetime option"
  today :: pydate
  urljoin :: "string \<Rightarrow> string \<Rightarrow> string"
  base_url :: string

text \<open>\<open>models.py\<close>.\<close>

record UnitQuota =
  name :: "string option"
  used :: pyfloat
  total :: pyfloat
  unit :: string
  remaining :: pyfloat
  unlimited :: bool


record CallHistoryEntry =
  timestamp :: pydatetime
  type :: string
  number :: string
  duration :: "string option"
  cost :: pyfloat

record SimSettings =
  roaming_barred :: "bool option"
  non_eu_roaming_barred :: "bool option"
  roaming_sms_disable :: "bool option"
  int_voice_barred :: "bool option"
  international_sms_disable :: "bool option"
  mpty_barred :: "bool option"
  premium_barred :: "bool option"
  data_barred :: "bool option"
  data_roaming_barred :: "bool option"
  non_eu_data_roaming_barred :: "bool option"

record CallForwardingRule =
  condition :: string
  target :: string
  target_number :: "string option"
  delay_seconds :: "int option"

record CallForwardingSettings =
  rules :: "CallForwardingRule list"
  editable_on_phone :: bool
  voicemail_play_cli_disable :: bool

text \<open>
  A selector's \<open>.get()\<close> is a \<open>string option\<close>; \<open>.get(d)\<close> is \<open>get_or d\<close> of it. \<open>truthy\<close> is
  Python's truth value of such a result: neither \<open>None\<close> nor the empty string.
\<close>

definition get_or :: "'a \<Rightarrow> 'a option \<Rightarrow> 'a" where
  "get_or d x = (case x of None \<Rightarrow> d | Some v \<Rightarrow> v)"

definition truthy :: "string option \<Rightarrow> bool" where
  "truthy x = (case x of None \<Rightarrow> False | Some v \<Rightarrow> v \<noteq> [])"

section \<open>Quotas of the overview parser\<close>






section \<open>Bill list\<close>





text \<open>
  An instance of the library parameters for the worked examples: one date and one
  timestamp are accepted, joining a URL appends the link to the base.
\<close>

definition demo_library :: library where
  "demo_library =
     \<lparr>strptime_date =
        (\<lambda>s. if s = ''01.02.2024'' then Some \<lparr>year = 2024, month = 2, day = 1\<rparr> else None),
      strptime_datetime =
        (\<lambda>s. if s = ''01.02.2024 10:00:00''
             then Some \<lparr>year = 2024, month = 2, day = 1, hour = 10, minute = 0, second = 0\<rparr>
             else None),
      today = \<lparr>year = 2026, month = 11, day = 4\<rparr>,
      urljoin = (\<lambda>b u. b @ u),
      base_url = ''https://portal/''\<rparr>"


section \<open>Call history\<close>

text \<open>\<open>s.split(sep)\<close> for a one-character separator: never an empty list.\<close>

fun split :: "char \<Rightarrow> string \<Rightarrow> string list" where
  "split sep [] = [[]]"
| "split sep (c # cs) =
     (if c = sep then [] # split sep cs
      else case split sep cs of p # ps \<Rightarrow> (c # p) # ps | [] \<Rightarrow> [[c]])"

text \<open>
  One \<open>li.list-group-item\<close> of a history block: the text of its bold label, if it has one,
  and the text of the value cell, if it has one.
\<close>

record history_row =
  bold_text :: "string option"
  value_text :: "string option"

text \<open>The inner loop of \<open>list_call_history\<close>: the dictionary of one block.\<close>

fun block_data :: "history_row list \<Rightarrow> (string \<rightharpoonup> string) \<Rightarrow> (string \<rightharpoonup> string)" where
  "block_data [] data = data"
| "block_data (row # rows) data =
     (case bold_text row of
        None \<Rightarrow> block_data rows data
      | Some k \<Rightarrow>
          block_data rows
            (data(lower (strip (replace '':'' [] k)) \<mapsto> strip (get_or [] (value_text row)))))"

text \<open>
  The rest of the loop body for one block: \<open>Inl w\<close> is a block skipped with the warning
  \<open>w\<close>, \<open>Inr e\<close> the entry appended.
\<close>

definition history_entry :: "library \<Rightarrow> (string \<rightharpoonup> string) \<Rightarrow> warning + CallHistoryEntry" where
  "history_entry L data =
     (let timestamp_str = data ''datum/uhrzeit'' in
      if \<not> truthy timestamp_str then Inl MissingTimestamp
      else
        let dauer_kosten_str = get_or [] (data ''dauer/kosten'');
            parts = split CHR ''/'' dauer_kosten_str;
            duration = (if parts \<noteq> [] then strip (hd parts) else ''0:00:00'');
            cost_str = (if length parts > 1 then strip (parts ! 1) else ''0'')
        in case strptime_datetime L (get_or [] timestamp_str) of
             None \<Rightarrow> Inl (BadTimestamp (get_or [] timestamp_str))
           | Some ts \<Rightarrow>
               Inr \<lparr>timestamp = ts,
                    type = get_or ''Unbekannt'' (data ''art''),
                    number = get_or [] (data ''nummer''),
                    duration = Some duration,
                    cost = parse_number cost_str (Fin 0)\<rparr>)"

fun list_call_history ::
  "library \<Rightarrow> history_row list list \<Rightarrow> CallHistoryEntry list \<times> warning list" where
  "list_call_history L [] = ([], [])"
| "list_call_history L (item # items) =
     (case list_call_history L items of
        (history, ws) \<Rightarrow>
          (case history_entry L (block_data item Map.empty) of
             Inl w \<Rightarrow> (history, w # ws)
           | Inr e \<Rightarrow> (e # history, ws)))"

section \<open>SIM settings\<close>

text \<open>A decoded JSON document. A Python \<open>dict\<close> keeps the last value of a repeated key.\<close>

datatype json =
    JNull
  | JBool bool
  | JNum rat
  | JStr string
  | JArr "json list"
  | JObj "(string \<times> json) list"

definition dict_get :: "(string \<times> json) list \<Rightarrow> string \<Rightarrow> json option" where
  "dict_get kvs k = map_of (rev kvs) k"

text \<open>\<open>SimSettings.model_fields\<close>.\<close>

definition model_fields :: "string list" where
  "model_fields = [''roaming_barred'', ''non_eu_roaming_barred'', ''roaming_sms_disable'',
                   ''int_voice_barred'', ''international_sms_disable'', ''mpty_barred'',
                   ''premium_barred'', ''data_barred'', ''data_roaming_barred'',
                   ''non_eu_data_roaming_barred'']"

text \<open>
  \<open>item.get("key", "").replace('-', '_')\<close> and \<open>item.get("value", False)\<close> for one item of
  \<open>data\<close>. \<open>item.get\<close> needs a dictionary and \<open>.replace\<close> a string; anything else raises
  \<open>AttributeError\<close>.
\<close>

definition item_key :: "json \<Rightarrow> error + string" where
  "item_key item =
     (case item of
        JObj kvs \<Rightarrow>
          (case get_or (JStr []) (dict_get kvs ''key'') of
             JStr k \<Rightarrow> Inr (replace ''-'' ''_'' k)
           | _ \<Rightarrow> Inl AttributeError)
      | _ \<Rightarrow> Inl AttributeError)"

definition item_value :: "json \<Rightarrow> json" where
  "item_value item =
     (case item of JObj kvs \<Rightarrow> get_or (JBool False) (dict_get kvs ''value'') | _ \<Rightarrow> JBool False)"

text \<open>The loop of \<open>get_sim_settings\<close> over the items of \<open>data\<close>.\<close>

fun settings_data ::
  "json list \<Rightarrow> (string \<rightharpoonup> json) \<Rightarrow> error + (string \<rightharpoonup> json)" where
  "settings_data [] d = Inr d"
| "settings_data (item # items) d =
     (case item_key item of
        Inl e \<Rightarrow> Inl e
      | Inr key \<Rightarrow>
          if key \<in> set model_fields
          then settings_data items (d(key \<mapsto> item_value item))
          else settings_data items d)"

text \<open>
  What \<open>for item in ...\<close> iterates over: the elements of a list, the keys of a dictionary,
  the characters of a string; any other value is not iterable.
\<close>

definition iter_items :: "json \<Rightarrow> error + json list" where
  "iter_items v =
     (case v of
        JArr xs \<Rightarrow> Inr xs
      | JObj kvs \<Rightarrow> Inr (map JStr (remdups (map fst kvs)))
      | JStr s \<Rightarrow> Inr (map (\<lambda>c. JStr [c]) s)
      | _ \<Rightarrow> Inl TypeError)"

text \<open>
  The validation of one \<open>Optional[bool]\<close> field by the model class: \<open>null\<close> and booleans
  are taken as they are; what the validating library makes of any other value is the
  parameter \<open>coerce\<close> (\<open>None\<close> where it rejects the value). A field that was not passed
  keeps its default \<open>None\<close>.
\<close>

definition validate_value :: "(json \<Rightarrow> bool option) \<Rightarrow> json \<Rightarrow> error + bool option" where
  "validate_value coerce v =
     (case v of
        JNull \<Rightarrow> Inr None
      | JBool b \<Rightarrow> Inr (Some b)
      | _ \<Rightarrow> (case coerce v of None \<Rightarrow> Inl ValidationError | Some b \<Rightarrow> Inr (Some b)))"

definition validate_field ::
  "(json \<Rightarrow> bool option) \<Rightarrow> (string \<rightharpoonup> json) \<Rightarrow> string \<Rightarrow> error + bool option" where
  "validate_field coerce d f =
     (case d f of None \<Rightarrow> Inr None | Some v \<Rightarrow> validate_value coerce v)"

definition fields_valid :: "(json \<Rightarrow> bool option) \<Rightarrow> (string \<rightharpoonup> json) \<Rightarrow> bool" where
  "fields_valid coerce d = list_all (\<lambda>f. isl (validate_field coerce d f) = False) model_fields"

definition field_value :: "(json \<Rightarrow> bool option) \<Rightarrow> (string \<rightharpoonup> json) \<Rightarrow> string \<Rightarrow> bool option" where
  "field_value coerce d f = (case validate_field coerce d f of Inr v \<Rightarrow> v | Inl _ \<Rightarrow> None)"

text \<open>\<open>SimSettings(**settings_data)\<close>.\<close>

definition make_SimSettings ::
  "(json \<Rightarrow> bool option) \<Rightarrow> (string \<rightharpoonup> json) \<Rightarrow> error + SimSettings" where
  "make_SimSettings coerce d =
     (if \<not> fields_valid coerce d then Inl ValidationError
      else Inr \<lparr>roaming_barred = field_value coerce d ''roaming_barred'',
                non_eu_roaming_barred = field_value coerce d ''non_eu_roaming_barred'',
                roaming_sms_disable = field_value coerce d ''roaming_sms_disable'',
                int_voice_barred = field_value coerce d ''int_voice_barred'',
                international_sms_disable = field_value coerce d ''international_sms_disable'',
                mpty_barred = field_value coerce d ''mpty_barred'',
                premium_barred = field_value coerce d ''premium_barred'',
                data_barred = field_value coerce d ''data_barred'',
                data_roaming_barred = field_value coerce d ''data_roaming_barred'',
                non_eu_data_roaming_barred = field_value coerce d ''non_eu_data_roaming_barred''\<rparr>)"

text \<open>\<open>getattr(settings, f)\<close> for a field name \<open>f\<close> of the model.\<close>

definition sim_field :: "SimSettings \<Rightarrow> string \<Rightarrow> bool option" where
  "sim_field s f =
     (if f = ''roaming_barred'' then roaming_barred s
      else if f = ''non_eu_roaming_barred'' then non_eu_roaming_barred s
      else if f = ''roaming_sms_disable'' then roaming_sms_disable s
      else if f = ''int_voice_barred'' then int_voice_barred s
      else if f = ''international_sms_disable'' then international_sms_disable s
      else if f = ''mpty_barred'' then mpty_barred s
      else if f = ''premium_barred'' then premium_barred s
      else if f = ''data_barred'' then data_barred s
      else if f = ''data_roaming_barred'' then data_roaming_barred s
      else if f = ''non_eu_data_roaming_barred'' then non_eu_data_roaming_barred s
      else None)"

text \<open>\<open>KontomanagerClient.get_sim_settings\<close> on the decoded body of the response.\<close>

definition get_sim_settings :: "(json \<Rightarrow> bool option) \<Rightarrow> json \<Rightarrow> error + SimSettings" where
  "get_sim_settings coerce api_response =
     (case api_response of
        JObj kvs \<Rightarrow>
          if dict_get kvs ''status'' \<noteq> Some (JStr ''OK'') then Inl KontomanagerClientError
          else (case iter_items (get_or (JArr []) (dict_get kvs ''data'')) of
                  Inl e \<Rightarrow> Inl e
                | Inr items \<Rightarrow>
                    (case settings_data items Map.empty of
                       Inl e \<Rightarrow> Inl e
                     | Inr d \<Rightarrow> make_SimSettings coerce d))
      | _ \<Rightarrow> Inl AttributeError)"

text \<open>Three items for the worked examples: a repeated key and a key that names no field.\<close>

definition demo_items :: "json list" where
  "demo_items =
     [JObj [(''key'', JStr ''data-barred''), (''value'', JBool True)],
      JObj [(''key'', JStr ''unknown-key''), (''value'', JBool True)],
      JObj [(''key'', JStr ''data_barred''), (''value'', JBool False)]]"

text \<open>
  \<open>KontomanagerClient.set_sim_setting\<close>. The portal is a response to the GET of the
  settings page (its HTTP status and the value of the token input, if there is one) and
  a response to the POST; the result comes with the requests issued.
\<close>

record response =
  status_ok :: bool
  resp_text :: string

datatype request =
    Get string
  | Post string "string \<rightharpoonup> string"



section \<open>Call forwarding\<close>

text \<open>
  The call-forwarding page as the selectors of \<open>get_call_forwarding_settings\<close> and
  \<open>set_call_forwarding_rule\<close> see it. For a condition code \<open>rid\<close>:
  \<^item> \<open>akt_selected rid\<close> is \<open>select[name='rid_akt'] option[selected='selected']::attr(value)\<close>,
  \<^item> \<open>akt_value rid\<close> is \<open>select[name='rid_akt']::attr(value)\<close>,
  \<^item> \<open>rn_value rid\<close> is \<open>input[name='rid_rn']::attr(value)\<close>;
  the other fields are the same queries for \<open>nann_sek\<close>, \<open>btel_akt\<close>,
  \<open>voicemail_play_cli_disable\<close> and the token input.
\<close>

record cf_page =
  akt_selected :: "string \<Rightarrow> string option"
  akt_value :: "string \<Rightarrow> string option"
  rn_value :: "string \<Rightarrow> string option"
  sek_selected :: "string option"
  sek_value :: "string option"
  btel_selected :: "string option"
  cli_selected :: "string option"
  token_value :: "string option"

definition rule_ids :: "string list" where
  "rule_ids = [''alle'', ''nann'', ''wtel'', ''nerr'']"

text \<open>\<open>s.isdigit()\<close>, \<open>int(s)\<close> of a digit string, and \<open>str(n)\<close>.\<close>

definition isdigit :: "string \<Rightarrow> bool" where
  "isdigit s = (s \<noteq> [] \<and> list_all is_digit s)"

fun str_of_nat :: "nat \<Rightarrow> string" where
  "str_of_nat n =
     (if n < 10 then [''0123456789'' ! n]
      else str_of_nat (n div 10) @ [''0123456789'' ! (n mod 10)])"

definition str_of_int :: "int \<Rightarrow> string" where
  "str_of_int i = (if i < 0 then ''-'' @ str_of_nat (nat (- i)) else str_of_nat (nat i))"

text \<open>The body of the loop of \<open>get_call_forwarding_settings\<close> for one condition.\<close>

definition parse_rule :: "cf_page \<Rightarrow> string \<Rightarrow> CallForwardingRule" where
  "parse_rule page rid =
     (let target = (if truthy (akt_selected page rid) then get_or [] (akt_selected page rid)
                    else get_or ''d'' (akt_value page rid));
          target_number = (if target = ''a'' then rn_value page rid else None);
          delay_seconds =
            (if rid = ''nann''
             then let delay_str = (if truthy (sek_selected page) then get_or [] (sek_selected page)
                                   else get_or ''25'' (sek_value page))
                  in if delay_str \<noteq> [] \<and> isdigit delay_str
                     then Some (int (nat_of_digits delay_str)) else None
             else None)
      in \<lparr>condition = rid, target = target, target_number = target_number,
          delay_seconds = delay_seconds\<rparr>)"

definition get_call_forwarding_settings :: "cf_page \<Rightarrow> CallForwardingSettings" where
  "get_call_forwarding_settings page =
     \<lparr>rules = map (parse_rule page) rule_ids,
      editable_on_phone = (get_or ''d'' (btel_selected page) = ''a''),
      voicemail_play_cli_disable = (get_or ''d'' (cli_selected page) = ''d'')\<rparr>"

text \<open>
  The loop of \<open>set_call_forwarding_rule\<close> that fills the payload with every rule, the
  requested one in place of the current rule of its condition.
\<close>

definition emit_rule :: "CallForwardingRule \<Rightarrow> (string \<rightharpoonup> string) \<Rightarrow> (string \<rightharpoonup> string)" where
  "emit_rule rule_to_apply payload =
     (let p1 = payload(condition rule_to_apply @ ''_akt'' \<mapsto> target rule_to_apply);
          p2 = (if truthy (target_number rule_to_apply)
                then p1(condition rule_to_apply @ ''_rn'' \<mapsto> get_or [] (target_number rule_to_apply))
                else p1)
      in case delay_seconds rule_to_apply of
           Some d \<Rightarrow> if condition rule_to_apply = ''nann'' then p2(''nann_sek'' \<mapsto> str_of_int d) else p2
         | None \<Rightarrow> p2)"

fun emit_rules ::
  "CallForwardingRule \<Rightarrow> CallForwardingRule list \<Rightarrow> (string \<rightharpoonup> string) \<Rightarrow> (string \<rightharpoonup> string)" where
  "emit_rules rule_to_set [] payload = payload"
| "emit_rules rule_to_set (rule # rs) payload =
     emit_rules rule_to_set rs
       (emit_rule (if condition rule = condition rule_to_set then rule_to_set else rule) payload)"

text \<open>The whole payload of \<open>set_call_forwarding_rule\<close>, for a token that was found.\<close>

definition cf_payload ::
  "CallForwardingSettings \<Rightarrow> string \<Rightarrow> CallForwardingRule \<Rightarrow> (string \<rightharpoonup> string)" where
  "cf_payload current_settings token rule_to_set =
     (emit_rules rule_to_set (rules current_settings) [''dosubmit'' \<mapsto> ''1'', ''token'' \<mapsto> token])
       (''btel_akt'' \<mapsto> (if editable_on_phone current_settings then ''a'' else ''d''),
        ''voicemail_play_cli_disable'' \<mapsto>
          (if voicemail_play_cli_disable current_settings then ''a'' else ''d''))"

text \<open>\<open>sub in s\<close> on strings.\<close>

fun contains :: "string \<Rightarrow> string \<Rightarrow> bool" where
  "contains [] sub = (sub = [])"
| "contains (c # cs) sub = (take (length sub) (c # cs) = sub \<or> contains cs sub)"

text \<open>
  \<open>KontomanagerClient.set_call_forwarding_rule\<close>: the page is fetched once for the
  current settings and once more for the token; the form is then posted.
\<close>

definition set_call_forwarding_rule ::
  "cf_page \<Rightarrow> cf_page \<Rightarrow> ((string \<rightharpoonup> string) \<Rightarrow> response) \<Rightarrow> CallForwardingRule \<Rightarrow>
   (error + string) \<times> request list" where
  "set_call_forwarding_rule page1 page2 post rule_to_set =
     (let current_settings = get_call_forwarding_settings page1;
          gets = [Get ''einstellungen_rufumleitung.php'', Get ''einstellungen_rufumleitung.php'']
      in if \<not> truthy (token_value page2) then (Inl KontomanagerClientError, gets)
         else
           let payload = cf_payload current_settings (get_or [] (token_value page2)) rule_to_set;
               post_response = post payload;
               reqs = gets @ [Post ''einstellungen_rufumleitung.php'' payload]
           in if \<not> status_ok post_response then (Inl HTTPStatusError, reqs)
              else if contains (resp_text post_response) ''Fehler''
                     \<or> contains (lower (resp_text post_response)) ''error''
              then (Inl KontomanagerClientError, reqs)
              else (Inr (''Successfully updated call forwarding rule for condition '' @ [CHR 0x27]
                         @ condition rule_to_set @ [CHR 0x27] @ ''.''), reqs))"

text \<open>
  A page and a request for the worked examples: unconditional forwarding to a number,
  no-answer forwarding to the voicemail after 20 seconds, both page-wide selectors with an
  explicit selection; the request turns forwarding on busy to the voicemail.
\<close>

definition demo_cf_page :: cf_page where
  "demo_cf_page =
     \<lparr>akt_selected = (\<lambda>rid. if rid = ''alle'' then Some ''a''
                           else if rid = ''nann'' then Some ''b'' else Some ''d''),
      akt_value = (\<lambda>rid. None),
      rn_value = (\<lambda>rid. if rid = ''alle'' then Some ''+436641234567'' else None),
      sek_selected = Some ''20'',
      sek_value = None,
      btel_selected = Some ''a'',
      cli_selected = Some ''d'',
      token_value = Some ''tok''\<rparr>"

definition demo_rule :: CallForwardingRule where
  "demo_rule = \<lparr>condition = ''wtel'', target = ''b'', target_number = None, delay_seconds = None\<rparr>"

section \<open>Phone normalization: results\<close>

lemma normalize_plus_digits:
  assumes "\<forall>c\<in>set ds. is_digit c" and "startswith ds ''43''"
  shows "normalize_phone_number (CHR ''+'' # ds) = CHR ''+'' # ds"
proof -
  have f: "filter is_digit (CHR ''+'' # ds) = ds"
    using assms(1) by (simp add: is_digit_def)
  have ne: "ds \<noteq> []" using assms(2) by (auto simp: startswith_def)
  show ?thesis
    unfolding normalize_phone_number_def Let_def f using ne assms(2) by simp
qed

lemma normalize_shape:
  "normalize_phone_number x = [] \<or>
   (\<exists>ds. normalize_phone_number x = CHR ''+'' # ds \<and> (\<forall>c\<in>set ds. is_digit c) \<and> startswith ds ''43'')"
proof -
  define d where "d = filter is_digit x"
  have dig: "\<forall>c\<in>set d. is_digit c" by (simp add: d_def)
  have dig1: "\<forall>c\<in>set (drop 1 d). is_digit c" using dig by (meson in_set_dropD)
  have d43: "\<forall>c\<in>set (''43'' @ ds). is_digit c" if "\<forall>c\<in>set ds. is_digit c" for ds
    using that by (simp add: is_digit_def)
  have s43: "startswith (''43'' @ ds) ''43''" for ds by (simp add: startswith_def)
  consider "x = [] \<or> d = []" | "d \<noteq> []" "x \<noteq> []" "startswith d ''43''"
    | "d \<noteq> []" "x \<noteq> []" "\<not> startswith d ''43''" "startswith d ''0''"
    | "d \<noteq> []" "x \<noteq> []" "\<not> startswith d ''43''" "\<not> startswith d ''0''"
    by blast
  then show ?thesis
  proof cases
    case 1
    then show ?thesis by (auto simp: normalize_phone_number_def d_def)
  next
    case 2
    then have "normalize_phone_number x = CHR ''+'' # d"
      by (simp add: normalize_phone_number_def d_def)
    then show ?thesis using dig 2 by blast
  next
    case 3
    then have "normalize_phone_number x = CHR ''+'' # (''43'' @ drop 1 d)"
      by (simp add: normalize_phone_number_def d_def)
    then show ?thesis using d43[OF dig1] s43 by blast
  next
    case 4
    then have "normalize_phone_number x = CHR ''+'' # (''43'' @ d)"
      by (simp add: normalize_phone_number_def d_def)
    then show ?thesis using d43[OF dig] s43 by blast
  qed
qed

text \<open>
  Claim C2. For every input string, normalizing a phone number twice gives the same
  result as normalizing it once, and the result is either empty or starts with \<open>+43\<close>.
\<close>

theorem normalize_phone_number_idempotent:
  "normalize_phone_number (normalize_phone_number x) = normalize_phone_number x \<and>
   (normalize_phone_number x = [] \<or> startswith (normalize_phone_number x) ''+43'')"
proof -
  consider "normalize_phone_number x = []"
    | ds where "normalize_phone_number x = CHR ''+'' # ds" "\<forall>c\<in>set ds. is_digit c" "startswith ds ''43''"
    using normalize_shape by blast
  then show ?thesis
  proof cases
    case 1
    then show ?thesis by (simp add: normalize_phone_number_def)
  next
    case 2
    then show ?thesis using normalize_plus_digits[OF 2(2) 2(3)]
      by (auto simp: startswith_def)
  qed
qed

section \<open>Rounding to a double: results\<close>

text \<open>\<open>ilog2 q\<close> is the exponent \<open>e\<close> with \<open>2 powi e \<le> q < 2 powi (e + 1)\<close>.\<close>

lemma powi2_less_imp: "(2::rat) powi a < 2 powi b \<Longrightarrow> a < b"
proof (rule ccontr)
  assume lt: "(2::rat) powi a < 2 powi b" and "\<not> a < b"
  then have "b \<le> a" by simp
  then have "(2::rat) powi b \<le> 2 powi a" by (intro power_int_increasing) auto
  with lt show False by simp
qed

lemma ilog2_unique:
  assumes "2 powi e \<le> (q::rat)" "q < 2 powi (e + 1)" "2 powi e' \<le> q" "q < 2 powi (e' + 1)"
  shows "e = (e'::int)"
proof -
  have "(2::rat) powi e < 2 powi (e' + 1)" using assms(1,4) by (rule le_less_trans)
  then have "e < e' + 1" by (rule powi2_less_imp)
  moreover have "(2::rat) powi e' < 2 powi (e + 1)" using assms(3,2) by (rule le_less_trans)
  then have "e' < e + 1" by (rule powi2_less_imp)
  ultimately show ?thesis by simp
qed

lemma ilog2_bounds:
  assumes "0 < q"
  shows "2 powi (ilog2 q) \<le> q \<and> q < 2 powi (ilog2 q + 1)"
proof -
  obtain n d where nd: "quotient_of q = (n, d)" by (cases "quotient_of q")
  have dpos: "0 < d" using nd by (rule quotient_of_denom_pos)
  have q: "q = of_int n / of_int d" using nd by (rule quotient_of_div)
  have npos: "0 < n"
  proof (rule ccontr)
    assume "\<not> 0 < n"
    then have "of_int n / of_int d \<le> (0::rat)" using dpos by (simp add: divide_le_0_iff)
    with assms q show False by simp
  qed
  define bn where "bn = bitlen n"
  define bd where "bd = bitlen d"
  define k where "k = bn - bd"
  have bn1: "1 \<le> bn" using npos bitlen_eq_zero_iff[of n] bitlen_nonneg[of n] by (simp add: bn_def)
  have bd1: "1 \<le> bd" using dpos bitlen_eq_zero_iff[of d] bitlen_nonneg[of d] by (simp add: bd_def)
  from bitlen_bounds[OF npos] have nb: "2 ^ nat (bn - 1) \<le> n" "n < 2 ^ nat bn" by (simp_all add: bn_def)
  from bitlen_bounds[OF dpos] have db: "2 ^ nat (bd - 1) \<le> d" "d < 2 ^ nat bd" by (simp_all add: bd_def)
  have nbr: "(2::rat) powi (bn - 1) \<le> of_int n" "(of_int n :: rat) < 2 powi bn"
  proof -
    have "(of_int (2 ^ nat (bn - 1)) :: rat) \<le> of_int n" using nb(1) by (simp only: of_int_le_iff)
    then show "(2::rat) powi (bn - 1) \<le> of_int n" using bn1 by (simp add: power_int_def)
    have "(of_int n :: rat) < of_int (2 ^ nat bn)" using nb(2) by (simp only: of_int_less_iff)
    then show "(of_int n :: rat) < 2 powi bn" using bn1 by (simp add: power_int_def)
  qed
  have dbr: "(2::rat) powi (bd - 1) \<le> of_int d" "(of_int d :: rat) < 2 powi bd"
  proof -
    have "(of_int (2 ^ nat (bd - 1)) :: rat) \<le> of_int d" using db(1) by (simp only: of_int_le_iff)
    then show "(2::rat) powi (bd - 1) \<le> of_int d" using bd1 by (simp add: power_int_def)
    have "(of_int d :: rat) < of_int (2 ^ nat bd)" using db(2) by (simp only: of_int_less_iff)
    then show "(of_int d :: rat) < 2 powi bd" using bd1 by (simp add: power_int_def)
  qed
  have dr: "(0::rat) < of_int d" using dpos by simp
  have upper: "q < 2 powi (k + 1)"
  proof -
    have "of_int n < (2::rat) powi bn" by (rule nbr(2))
    also have "(2::rat) powi bn = 2 powi (k + 1) * 2 powi (bd - 1)"
      by (simp add: k_def flip: power_int_add)
    also have "\<dots> \<le> 2 powi (k + 1) * of_int d"
      using dbr(1) by (intro mult_left_mono) auto
    finally show ?thesis using dr by (simp add: q pos_divide_less_eq)
  qed
  have lower: "2 powi (k - 1) \<le> q"
  proof -
    have "(2::rat) powi (k - 1) * of_int d \<le> 2 powi (k - 1) * 2 powi bd"
      using dbr(2) by (intro mult_left_mono) auto
    also have "\<dots> = 2 powi (bn - 1)" by (simp add: k_def flip: power_int_add)
    also have "\<dots> \<le> of_int n" by (rule nbr(1))
    finally show ?thesis using dr by (simp add: q pos_le_divide_eq)
  qed
  have il: "ilog2 q = (if 2 powi k \<le> q then k else k - 1)"
    by (simp add: ilog2_def nd k_def bn_def bd_def Let_def)
  show ?thesis
  proof (cases "2 powi k \<le> q")
    case True
    then show ?thesis using upper il by simp
  next
    case False
    then show ?thesis using lower il by simp
  qed
qed

lemma ilog2_eqI:
  assumes "2 powi e \<le> q" "q < 2 powi (e + 1)"
  shows "ilog2 q = e"
proof -
  have "(0::rat) < 2 powi e" by simp
  from this assms(1) have "0 < q" by (rule less_le_trans)
  from ilog2_bounds[OF this] assms show ?thesis by (metis ilog2_unique)
qed

text \<open>Evaluating \<open>round_double\<close> once the exponent is known.\<close>

lemma round_double_eqI:
  assumes "2 powi e \<le> \<bar>q\<bar>" "\<bar>q\<bar> < 2 powi (e + 1)" "- 1022 \<le> e"
  shows "round_double q = of_int (round_half_even (q / 2 powi (e - 52))) * 2 powi (e - 52)"
proof -
  have "(0::rat) < 2 powi e" by simp
  from this assms(1) have "0 < \<bar>q\<bar>" by (rule less_le_trans)
  then have q0: "q \<noteq> 0" by simp
  have "ilog2 \<bar>q\<bar> = e" using assms(1,2) by (rule ilog2_eqI)
  then have "ulp q = 2 powi (e - 52)" using assms(3) by (simp add: ulp_def max_def)
  then show ?thesis using q0 by (simp add: round_double_def)
qed

lemma round_half_even_of_int_div:
  assumes "0 < b"
  shows "round_half_even (of_int a / of_int b) =
           (if 2 * (a mod b) < b then a div b
            else if b < 2 * (a mod b) then a div b + 1
            else if even (a div b) then a div b else a div b + 1)"
proof -
  have fl: "\<lfloor>(of_int a / of_int b :: rat)\<rfloor> = a div b" by (rule floor_divide_of_int_eq)
  have br: "(0::rat) < of_int b" using assms by simp
  have "(of_int a :: rat) = of_int (a div b * b + a mod b)" by simp
  also have "\<dots> = of_int (a div b) * of_int b + of_int (a mod b)" by (simp only: of_int_add of_int_mult)
  finally have "(of_int a / of_int b :: rat) = of_int (a div b) + of_int (a mod b) / of_int b"
    using br by (simp add: field_simps)
  then have d: "(of_int a / of_int b :: rat) - of_int (a div b) = of_int (a mod b) / of_int b" by simp
  have lt: "(of_int (a mod b) / of_int b :: rat) < 1 / 2 \<longleftrightarrow> 2 * (a mod b) < b"
  proof -
    have "(of_int (a mod b) / of_int b :: rat) < 1 / 2 \<longleftrightarrow> (of_int (2 * (a mod b)) :: rat) < of_int b"
      using br by (simp add: field_simps)
    also have "\<dots> \<longleftrightarrow> 2 * (a mod b) < b" by (rule of_int_less_iff)
    finally show ?thesis .
  qed
  have gt: "(1 / 2 :: rat) < of_int (a mod b) / of_int b \<longleftrightarrow> b < 2 * (a mod b)"
  proof -
    have "(1 / 2 :: rat) < of_int (a mod b) / of_int b \<longleftrightarrow> (of_int b :: rat) < of_int (2 * (a mod b))"
      using br by (simp add: field_simps)
    also have "\<dots> \<longleftrightarrow> b < 2 * (a mod b)" by (rule of_int_less_iff)
    finally show ?thesis .
  qed
  show ?thesis
    unfolding round_half_even_def Let_def fl d lt gt by (rule refl)
qed

lemma round_half_even_numeral_div:
  "round_half_even (numeral a / numeral b) =
     (if 2 * (numeral a mod numeral b) < (numeral b :: int) then numeral a div numeral b
      else if (numeral b :: int) < 2 * (numeral a mod numeral b) then numeral a div numeral b + 1
      else if even (numeral a div numeral b :: int) then numeral a div numeral b
      else numeral a div numeral b + 1)"
  using round_half_even_of_int_div[of "numeral b" "numeral a"] by simp

lemma round_half_even_of_int [simp]: "round_half_even (of_int k) = k"
  by (simp add: round_half_even_def)

lemma round_half_even_numeral [simp]: "round_half_even (numeral k) = numeral k"
  using round_half_even_of_int[of "numeral k"] by (simp del: round_half_even_of_int)







text \<open>Signs, and subtracting zero.\<close>

lemma float_of_rat_0: "float_of_rat 0 = Fin 0"
  by (simp add: float_of_rat_def round_double_def)






section \<open>Captured groups: results\<close>




section \<open>Decimal parsing: results\<close>

text \<open>Cleaning a text adds no digit, and the number pattern needs one.\<close>

lemma set_replace: "set (replace old new s) \<subseteq> set s \<union> set new"
proof (induction old new s rule: replace.induct)
  case (1 old new)
  then show ?case by simp
next
  case (2 old new c cs)
  show ?case
  proof (cases "old \<noteq> [] \<and> take (length old) (c # cs) = old")
    case True
    have "set (drop (length old) (c # cs)) \<subseteq> set (c # cs)" by (rule set_drop_subset)
    with True 2(1) show ?thesis by auto
  next
    case False
    with 2(2) show ?thesis by auto
  qed
qed

lemma set_strip: "set (strip s) \<subseteq> set s"
proof -
  have "set (strip s) \<subseteq> set (dropWhile is_space s)"
    unfolding strip_def using set_dropWhileD[of _ is_space "rev (dropWhile is_space s)"] by auto
  also have "\<dots> \<subseteq> set s" using set_dropWhileD by fastforce
  finally show ?thesis .
qed

lemma rmatch_suffix: "(s', g') \<in> set (rmatch ic r s g) \<Longrightarrow> \<exists>p. s = p @ s'"
proof (induction r arbitrary: s g s' g')
  case Epsilon
  then show ?case by simp
next
  case (Chr a)
  then show ?case by (cases s) (auto split: if_splits)
next
  case (Cls p)
  then show ?case by (cases s) (auto split: if_splits)
next
  case (Rep n p)
  then obtain k where "s' = drop k s" by auto
  then have "s = take k s @ s'" by simp
  then show ?case by blast
next
  case (Seq r1 r2)
  from Seq.prems obtain s1 g1 where a: "(s1, g1) \<in> set (rmatch ic r1 s g)"
    and b: "(s', g') \<in> set (rmatch ic r2 s1 g1)" by auto
  from Seq.IH(1)[OF a] Seq.IH(2)[OF b] show ?case by auto
next
  case (Alt r1 r2)
  then show ?case by auto
next
  case (Opt r)
  then show ?case by auto
next
  case (Grp n r)
  then show ?case by auto
qed

lemma number_re_no_digit:
  assumes "\<forall>c\<in>set s. \<not> is_digit c"
  shows "rmatch False number_re s g = []"
proof -
  define suf where "suf = (\<lambda>s'. \<exists>p. s = p @ s')"
  have suf_self: "suf s" by (simp add: suf_def)
  have suf_step: "suf s2" if "suf s1" "(s2, g2) \<in> set (rmatch False r s1 g1)" for s1 s2 g1 g2 r
  proof -
    from that(1) obtain p where "s = p @ s1" by (auto simp: suf_def)
    moreover from rmatch_suffix[OF that(2)] obtain q where "s1 = q @ s2" by blast
    ultimately have "s = (p @ q) @ s2" by simp
    then show ?thesis unfolding suf_def by (rule exI)
  qed
  have rep: "rmatch False (Rep 1 is_digit) s' g' = []" if "suf s'" for s' g'
  proof -
    from that assms have "\<forall>c\<in>set s'. \<not> is_digit c" by (auto simp: suf_def)
    then have "takeWhile is_digit s' = []" by (cases s') auto
    then show ?thesis by simp
  qed
  have seq_nil: "rmatch False (Seq r1 r2) s1 g1 = []"
    if r2: "\<And>s' g'. suf s' \<Longrightarrow> rmatch False r2 s' g' = []" and s1: "suf s1"
    for r1 r2 s1 g1
  proof -
    have "rmatch False r2 s' g' = []" if "(s', g') \<in> set (rmatch False r1 s1 g1)" for s' g'
      by (rule r2) (rule suf_step[OF s1 that])
    then show ?thesis by auto
  qed
  have r4: "rmatch False (Seq (Rep 1 is_digit) Epsilon) s' g' = []" if "suf s'" for s' g'
    by (simp only: rmatch.simps(5) rep[OF that]) simp
  have r3: "rmatch False (Seq (Opt (Chr CHR ''.'')) (Seq (Rep 1 is_digit) Epsilon)) s' g' = []"
    if "suf s'" for s' g'
    by (rule seq_nil) (rule r4, assumption, rule that)
  have r2: "rmatch False (Seq (Rep 0 is_digit) (Seq (Opt (Chr CHR ''.'')) (Seq (Rep 1 is_digit) Epsilon))) s' g' = []"
    if "suf s'" for s' g'
    by (rule seq_nil) (rule r3, assumption, rule that)
  have eq: "number_re = Seq (Opt (Cls (\<lambda>c. c \<in> set ''-+''))) (Seq (Rep 0 is_digit)
          (Seq (Opt (Chr CHR ''.'')) (Seq (Rep 1 is_digit) Epsilon)))"
    by (simp add: number_re_def Seqs_def)
  show ?thesis
    unfolding eq by (rule seq_nil) (rule r2, assumption, rule suf_self)
qed

lemma re_search_number_None:
  "\<forall>c\<in>set s. \<not> is_digit c \<Longrightarrow> re_search False number_re s = None"
  by (induction s) (simp_all add: number_re_no_digit)

lemma cleaned_no_digit:
  assumes "\<forall>c\<in>set s. \<not> is_digit c"
  shows "\<forall>c\<in>set (cleaned_text s). \<not> is_digit c"
proof -
  define s1 where "s1 = replace euro [] s"
  define s2 where "s2 = replace ''.'' [] s1"
  define s3 where "s3 = replace '','' ''.'' s2"
  have "set s1 \<subseteq> set s" unfolding s1_def using set_replace[of euro "[]" s] by simp
  moreover have "set s2 \<subseteq> set s1" unfolding s2_def using set_replace[of "''.''" "[]" s1] by simp
  moreover have "set s3 \<subseteq> set s2 \<union> {CHR ''.''}"
    unfolding s3_def using set_replace[of "'',''" "''.''" s2] by simp
  moreover have "set (strip s3) \<subseteq> set s3" by (rule set_strip)
  ultimately have "set (strip s3) \<subseteq> set s \<union> {CHR ''.''}" by blast
  moreover have "cleaned_text s = strip s3" by (simp add: cleaned_text_def s1_def s2_def s3_def)
  moreover have "\<not> is_digit CHR ''.''" by (simp add: is_digit_def)
  ultimately show ?thesis using assms by auto
qed

lemma parse_number_example1: "parse_number ''1.234,56'' d = float_of_rat (123456 / 100)"
  by (simp add: parse_number_def cleaned_text_def euro_def strip_def is_space_def number_re_def
      Seqs_def is_digit_def mgroup_def float_of_str_def dec_value_def nat_of_digits_def
      digit_val_def)

lemma parse_number_example2: "parse_number (''0,5 '' @ euro) d = float_of_rat (1 / 2)"
  by (simp add: parse_number_def cleaned_text_def euro_def strip_def is_space_def number_re_def
      Seqs_def is_digit_def mgroup_def float_of_str_def dec_value_def nat_of_digits_def
      digit_val_def)

lemma parse_number_no_token:
  "re_search False number_re (cleaned_text t) = None \<Longrightarrow> parse_number t d = d"
  by (simp add: parse_number_def)

lemma parse_number_no_digit:
  "\<forall>c\<in>set t. \<not> is_digit c \<Longrightarrow> parse_number t d = d"
  by (rule parse_number_no_token) (rule re_search_number_None, rule cleaned_no_digit)

text \<open>
  Claim C9. Decimal parsing maps \<open>1.234,56\<close> to the float 1234.56 and \<open>0,5 \<euro>\<close> to 0.5; for
  the empty text, for a text in which the pattern finds no numeric token after cleaning,
  and in particular for a text without digits, it returns the default it was given.
\<close>

theorem parse_number_decimal:
  "parse_number ''1.234,56'' d = float_of_rat (123456 / 100) \<and>
   parse_number (''0,5 '' @ euro) d = float_of_rat (1 / 2) \<and>
   parse_number [] d = d \<and>
   (re_search False number_re (cleaned_text t) = None \<longrightarrow> parse_number t d = d) \<and>
   ((\<forall>c\<in>set t. \<not> is_digit c) \<longrightarrow> parse_number t d = d)"
  using parse_number_example1 parse_number_example2 parse_number_no_token parse_number_no_digit
  by (simp add: parse_number_def)

theorem parse_number_decimal_witness:
  "re_search False number_re (cleaned_text ''n/a'') = None \<and>
   list_all (\<lambda>c. \<not> is_digit c) ''n/a'' \<and>
   parse_number ''n/a'' (Fin 7) = Fin 7"
proof -
  have nd: "\<forall>c\<in>set ''n/a''. \<not> is_digit c" by (simp add: is_digit_def)
  from parse_number_decimal[of "Fin 7" "''n/a''"] nd
  have "parse_number ''n/a'' (Fin 7) = Fin 7" by blast
  moreover have "re_search False number_re (cleaned_text ''n/a'') = None"
    by (rule re_search_number_None) (rule cleaned_no_digit[OF nd])
  ultimately show ?thesis using nd by (simp add: list_all_iff)
qed

section \<open>Usage-bar parsing: results\<close>

lemma float_of_rat_5_2: "float_of_rat (5 / 2) = Fin (5 / 2)"
proof -
  have "round_double (5 / 2) = 5 / 2"
    by (subst round_double_eqI[where e = "1"]) (simp_all add: round_half_even_numeral_div)
  then show ?thesis by (simp add: float_of_rat_def)
qed

lemma float_of_rat_10: "float_of_rat 10 = Fin 10"
proof -
  have "round_double 10 = 10"
    by (subst round_double_eqI[where e = "3"]) (simp_all add: round_half_even_numeral_div)
  then show ?thesis by (simp add: float_of_rat_def)
qed

lemma float_of_rat_1: "float_of_rat 1 = Fin 1"
proof -
  have "round_double 1 = 1"
    by (subst round_double_eqI[where e = "0"]) (simp_all add: round_half_even_numeral_div)
  then show ?thesis by (simp add: float_of_rat_def)
qed

lemmas eval_defs = parse_number_def cleaned_text_def euro_def strip_def is_space_def number_re_def
      Seqs_def is_digit_def mgroup_def float_of_str_def dec_value_def nat_of_digits_def
      digit_val_def parse_usage_bar_def usage_re_def Lit_def is_numch_def is_word_def
      is_upper_def is_lower_def lower_def lower_char_def

lemma usage_example: "parse_usage_bar ''Verbraucht: 2,5 (von 10 GB)'' = (Fin (5 / 2), Fin 10, ''GB'')"
  by (simp add: eval_defs float_of_rat_5_2 float_of_rat_10)

lemma lower_char_lits:
  "lower_char CHR ''V'' = CHR ''v''" "lower_char CHR ''e'' = CHR ''e''" "lower_char CHR ''r'' = CHR ''r''" "lower_char CHR ''b'' = CHR ''b''" "lower_char CHR ''a'' = CHR ''a''" "lower_char CHR ''u'' = CHR ''u''" "lower_char CHR ''c'' = CHR ''c''" "lower_char CHR ''h'' = CHR ''h''" "lower_char CHR ''t'' = CHR ''t''" "lower_char CHR ''o'' = CHR ''o''" "lower_char CHR ''n'' = CHR ''n''" "lower_char CHR ''l'' = CHR ''l''" "lower_char CHR ''i'' = CHR ''i''" "lower_char CHR ''m'' = CHR ''m''" "lower_char CHR ''d'' = CHR ''d''" "lower_char CHR '':'' = CHR '':''" "lower_char CHR ''('' = CHR ''(''" "lower_char CHR '' '' = CHR '' ''" "lower_char CHR ''1'' = CHR ''1''" "lower_char CHR '')'' = CHR '')''" "lower_char CHR ''M'' = CHR ''m''" "lower_char CHR ''B'' = CHR ''b''"
  by (simp_all add: lower_char_def)

lemma lower_char_u: "lower_char c = CHR ''u'' \<Longrightarrow> c = CHR ''u'' \<or> c = CHR ''U''"
  by (simp add: lower_char_def split: if_splits)

lemmas eval_defs0 = parse_number_def cleaned_text_def euro_def strip_def is_space_def number_re_def
      Seqs_def is_digit_def mgroup_def float_of_str_def dec_value_def nat_of_digits_def
      digit_val_def parse_usage_bar_def usage_re_def Lit_def is_numch_def is_word_def
      is_upper_def is_lower_def lower_def

lemma usage_unlimited:
  assumes "lower u = ''unlimited''"
  shows "parse_usage_bar (''Verbraucht: 1 (von '' @ u @ '' MB)'') = (Fin 1, PInf, ''MB'')"
proof -
  from assms obtain c1 c2 c3 c4 c5 c6 c7 c8 c9 where u: "u = [c1, c2, c3, c4, c5, c6, c7, c8, c9]"
    and l: "lower_char c1 = CHR ''u''" "lower_char c2 = CHR ''n''" "lower_char c3 = CHR ''l''"
      "lower_char c4 = CHR ''i''" "lower_char c5 = CHR ''m''" "lower_char c6 = CHR ''i''"
      "lower_char c7 = CHR ''t''" "lower_char c8 = CHR ''e''" "lower_char c9 = CHR ''d''"
    by (auto simp: lower_def map_eq_Cons_conv)
  from lower_char_u[OF l(1)] have n1: "c1 \<notin> set ''0123456789.,''"
    and n2: "c1 \<notin> set [CHR 0x09, CHR 0x0A, CHR 0x0B, CHR 0x0C, CHR 0x0D,
                            CHR 0x1C, CHR 0x1D, CHR 0x1E, CHR 0x1F, CHR 0x20]" by auto
  show ?thesis
    using n1 n2 by (simp add: u eval_defs0 l lower_char_lits float_of_rat_1)
qed

lemma usage_unlimited_total:
  "re_search True usage_re t = Some m \<Longrightarrow> lower (mgroup m 2) = ''unlimited'' \<Longrightarrow>
   fst (snd (parse_usage_bar t)) = PInf"
  by (simp add: parse_usage_bar_def Let_def)

lemma usage_no_match:
  "re_search True usage_re t = None \<Longrightarrow> parse_usage_bar t = (Fin 0, Fin 0, [])"
  by (simp add: parse_usage_bar_def)

text \<open>
  Claim C4. Usage-bar parsing maps \<open>Verbraucht: 2,5 (von 10 GB)\<close> to \<open>(2.5, 10.0, GB)\<close>; a
  total written as the word \<open>unlimited\<close> in any letter case gives positive infinity as the
  total; a text that the pattern does not match gives \<open>(0.0, 0.0, "")\<close>.
\<close>

theorem parse_usage_bar_cases:
  "parse_usage_bar ''Verbraucht: 2,5 (von 10 GB)'' = (Fin (5 / 2), Fin 10, ''GB'') \<and>
   (lower u = ''unlimited'' \<longrightarrow>
      parse_usage_bar (''Verbraucht: 1 (von '' @ u @ '' MB)'') = (Fin 1, PInf, ''MB'')) \<and>
   (re_search True usage_re t1 = Some m \<and> lower (mgroup m 2) = ''unlimited'' \<longrightarrow>
      fst (snd (parse_usage_bar t1)) = PInf) \<and>
   (re_search True usage_re t2 = None \<longrightarrow> parse_usage_bar t2 = (Fin 0, Fin 0, []))"
  using usage_example usage_unlimited usage_unlimited_total usage_no_match by blast

theorem parse_usage_bar_cases_witness:
  "lower ''UnLimited'' = ''unlimited'' \<and>
   parse_usage_bar ''Verbraucht: 1 (von UnLimited MB)'' = (Fin 1, PInf, ''MB'') \<and>
   (\<exists>m. re_search True usage_re ''Verbraucht: 3 (von UNLIMITED Min)'' = Some m \<and>
        lower (mgroup m 2) = ''unlimited'') \<and>
   fst (snd (parse_usage_bar ''Verbraucht: 3 (von UNLIMITED Min)'')) = PInf \<and>
   re_search True usage_re ''Verbraucht: 5 von 10 GB'' = None \<and>
   parse_usage_bar ''Verbraucht: 5 von 10 GB'' = (Fin 0, Fin 0, [])"
proof -
  have a: "lower ''UnLimited'' = ''unlimited''" by (simp add: lower_def lower_char_def)
  have b: "re_search True usage_re ''Verbraucht: 5 von 10 GB'' = None"
    by (simp add: usage_re_def Seqs_def Lit_def is_numch_def is_digit_def is_space_def is_word_def
        is_upper_def is_lower_def lower_char_def)
  obtain m where c: "re_search True usage_re ''Verbraucht: 3 (von UNLIMITED Min)'' = Some m"
    and d: "lower (mgroup m 2) = ''unlimited''"
    by (simp add: usage_re_def Seqs_def Lit_def is_numch_def is_digit_def is_space_def is_word_def
        is_upper_def is_lower_def lower_char_def lower_def mgroup_def)
  from parse_usage_bar_cases[of "''UnLimited''" "''Verbraucht: 3 (von UNLIMITED Min)''" m
      "''Verbraucht: 5 von 10 GB''"] a b c d
  show ?thesis by simp
qed

section \<open>Quotas: results\<close>























section \<open>Bill list: results\<close>



















section \<open>Call history: results\<close>

text \<open>
  A block without a timestamp value is skipped, a block whose timestamp does not parse is
  skipped with a warning, and the listing never fails. The duration is always the first
  part of the split field: \<open>split\<close> never returns an empty list, so the default
  \<open>0:00:00\<close> of the source is never taken.
\<close>

lemma split_not_Nil: "split sep s \<noteq> []"
  by (induction s) (auto split: list.splits)

lemma history_entry_missing_timestamp:
  "\<not> truthy (data ''datum/uhrzeit'') \<Longrightarrow> history_entry L data = Inl MissingTimestamp"
  by (simp add: history_entry_def)

lemma history_entry_bad_timestamp:
  "data ''datum/uhrzeit'' = Some ts \<Longrightarrow> ts \<noteq> [] \<Longrightarrow> strptime_datetime L ts = None \<Longrightarrow>
   history_entry L data = Inl (BadTimestamp ts)"
  by (simp add: history_entry_def truthy_def get_or_def Let_def)

lemma history_entry_duration:
  "history_entry L data = Inr e \<Longrightarrow>
   duration e = Some (strip (hd (split CHR ''/'' (get_or [] (data ''dauer/kosten'')))))"
  by (auto simp: history_entry_def Let_def split_not_Nil split: if_splits option.splits)

lemma history_entry_no_field:
  "history_entry L data = Inr e \<Longrightarrow> data ''dauer/kosten'' = None \<Longrightarrow> duration e = Some []"
  by (drule history_entry_duration) (simp add: get_or_def strip_def)

lemma list_call_history_total:
  "length (fst (list_call_history L items)) + length (snd (list_call_history L items)) = length items"
  by (induction items) (auto split: prod.splits sum.splits)

lemmas history_eval_defs = demo_library_def history_entry_def truthy_def get_or_def strip_def
  is_space_def lower_def lower_char_def

text \<open>
  Claim C5. A block with a timestamp and no duration/cost field should get the zero
  duration \<open>0:00:00\<close> and the cost text \<open>0\<close>. The code gives it the empty string as its
  duration (and the cost 0).
\<close>

theorem call_history_default_duration:
  "list_call_history demo_library
     [[\<lparr>bold_text = Some ''Datum/Uhrzeit:'', value_text = Some ''01.02.2024 10:00:00''\<rparr>,
       \<lparr>bold_text = Some ''Art:'', value_text = Some ''SMS''\<rparr>]] =
   ([\<lparr>timestamp = \<lparr>year = 2024, month = 2, day = 1, hour = 10, minute = 0, second = 0\<rparr>,
      type = ''SMS'', number = [], duration = Some [], cost = Fin 0\<rparr>], [])"
  by (simp add: history_eval_defs parse_number_def cleaned_text_def euro_def number_re_def
      Seqs_def is_digit_def mgroup_def float_of_str_def dec_value_def nat_of_digits_def
      digit_val_def float_of_rat_0)

section \<open>SIM settings: results\<close>

lemma settings_data_lookup:
  "settings_data items d = Inr d' \<Longrightarrow>
   d' f = (if f \<in> set model_fields
           then (case filter (\<lambda>i. item_key i = Inr f) items of
                   [] \<Rightarrow> d f | x # xs \<Rightarrow> Some (item_value (last (x # xs))))
           else d f)"
proof (induction items arbitrary: d)
  case Nil
  then show ?case by simp
next
  case (Cons item items)
  from Cons.prems obtain key where key: "item_key item = Inr key"
    by (auto split: sum.splits)
  show ?case
  proof (cases "key \<in> set model_fields")
    case True
    with Cons.prems key have rest: "settings_data items (d(key \<mapsto> item_value item)) = Inr d'"
      by simp
    note IH = Cons.IH[OF rest]
    show ?thesis
    proof (cases "key = f")
      case kf: True
      then show ?thesis using IH True key by (auto split: list.splits)
    next
      case False
      then show ?thesis using IH key by (auto split: list.splits)
    qed
  next
    case False
    with Cons.prems key have rest: "settings_data items d = Inr d'" by simp
    from Cons.IH[OF rest] False key show ?thesis by (auto split: list.splits)
  qed
qed

lemma make_SimSettings_field:
  assumes "make_SimSettings coerce d = Inr s" "f \<in> set model_fields"
  shows "sim_field s f = field_value coerce d f \<and> \<not> isl (validate_field coerce d f)"
proof -
  from assms(1) have v: "fields_valid coerce d"
    and s: "s = \<lparr>roaming_barred = field_value coerce d ''roaming_barred'',
                non_eu_roaming_barred = field_value coerce d ''non_eu_roaming_barred'',
                roaming_sms_disable = field_value coerce d ''roaming_sms_disable'',
                int_voice_barred = field_value coerce d ''int_voice_barred'',
                international_sms_disable = field_value coerce d ''international_sms_disable'',
                mpty_barred = field_value coerce d ''mpty_barred'',
                premium_barred = field_value coerce d ''premium_barred'',
                data_barred = field_value coerce d ''data_barred'',
                data_roaming_barred = field_value coerce d ''data_roaming_barred'',
                non_eu_data_roaming_barred = field_value coerce d ''non_eu_data_roaming_barred''\<rparr>"
    by (auto simp: make_SimSettings_def split: if_splits)
  from v assms(2) have "\<not> isl (validate_field coerce d f)"
    by (simp add: fields_valid_def list_all_iff)
  moreover from assms(2) have "sim_field s f = field_value coerce d f"
    unfolding s by (auto simp: model_fields_def sim_field_def)
  ultimately show ?thesis by simp
qed

lemma field_value_validated:
  "\<not> isl (validate_field coerce d f) \<Longrightarrow>
   (case d f of None \<Rightarrow> field_value coerce d f = None
    | Some v \<Rightarrow> validate_value coerce v = Inr (field_value coerce d f))"
  by (auto simp: field_value_def validate_field_def split: option.splits sum.splits)

lemma settings_data_ignores:
  "\<forall>i\<in>set items. \<not> isl (item_key i) \<Longrightarrow>
   settings_data (filter (\<lambda>i. \<exists>f\<in>set model_fields. item_key i = Inr f) items) d =
   settings_data items d"
proof (induction items arbitrary: d)
  case Nil
  then show ?case by simp
next
  case (Cons item items)
  then obtain key where key: "item_key item = Inr key" by (cases "item_key item") auto
  from Cons have IH: "\<And>d. settings_data (filter (\<lambda>i. \<exists>f\<in>set model_fields. item_key i = Inr f) items) d =
   settings_data items d" by simp
  show ?case using key IH by auto
qed

lemma get_sim_settings_status:
  "dict_get kvs ''status'' \<noteq> Some (JStr ''OK'') \<Longrightarrow>
   get_sim_settings coerce (JObj kvs) = Inl KontomanagerClientError"
  by (simp add: get_sim_settings_def)

lemma get_sim_settings_field:
  assumes "get_sim_settings coerce (JObj kvs) = Inr s"
    and "iter_items (get_or (JArr []) (dict_get kvs ''data'')) = Inr items"
    and "f \<in> set model_fields"
  shows "case filter (\<lambda>i. item_key i = Inr f) items of
           [] \<Rightarrow> sim_field s f = None
         | x # xs \<Rightarrow> validate_value coerce (item_value (last (x # xs))) = Inr (sim_field s f)"
proof -
  from assms(1,2) obtain d where d: "settings_data items Map.empty = Inr d"
    and m: "make_SimSettings coerce d = Inr s"
    by (auto simp: get_sim_settings_def split: if_splits sum.splits)
  from make_SimSettings_field[OF m assms(3)]
  have sf: "sim_field s f = field_value coerce d f" and ok: "\<not> isl (validate_field coerce d f)"
    by simp_all
  from settings_data_lookup[OF d, of f] assms(3)
  have df: "d f = (case filter (\<lambda>i. item_key i = Inr f) items of
                   [] \<Rightarrow> None | x # xs \<Rightarrow> Some (item_value (last (x # xs))))" by simp
  from field_value_validated[OF ok] show ?thesis
    unfolding sf df by (auto split: list.splits)
qed

lemmas sim_eval_defs = get_sim_settings_def dict_get_def get_or_def iter_items_def item_key_def
  item_value_def model_fields_def make_SimSettings_def fields_valid_def validate_field_def
  validate_value_def field_value_def

lemma get_sim_settings_example:
  "get_sim_settings coerce
     (JObj [(''status'', JStr ''OK''),
            (''data'', JArr [JObj [(''key'', JStr ''roaming-barred''), (''value'', JBool True)]])]) =
   Inr \<lparr>roaming_barred = Some True, non_eu_roaming_barred = None, roaming_sms_disable = None,
        int_voice_barred = None, international_sms_disable = None, mpty_barred = None,
        premium_barred = None, data_barred = None, data_roaming_barred = None,
        non_eu_data_roaming_barred = None\<rparr>"
  by (simp add: sim_eval_defs)

text \<open>
  Claim C8. \<open>get_sim_settings\<close> raises the client error when the status of the payload is
  not \<open>OK\<close>. Otherwise a field of the result is set by the last item of \<open>data\<close> whose key,
  with \<open>-\<close> translated to \<open>_\<close>, is the name of that field, and is unset when there is no
  such item; items whose key names no field change nothing. The payload with the single
  item \<open>roaming-barred = true\<close> gives \<open>roaming_barred = True\<close> and every other field unset.
\<close>

theorem get_sim_settings_cases:
  "(dict_get kvs ''status'' \<noteq> Some (JStr ''OK'') \<longrightarrow>
      get_sim_settings coerce (JObj kvs) = Inl KontomanagerClientError) \<and>
   (get_sim_settings coerce (JObj kvs) = Inr s \<and>
    iter_items (get_or (JArr []) (dict_get kvs ''data'')) = Inr items \<and>
    f \<in> set model_fields \<longrightarrow>
      (case filter (\<lambda>i. item_key i = Inr f) items of
         [] \<Rightarrow> sim_field s f = None
       | x # xs \<Rightarrow> validate_value coerce (item_value (last (x # xs))) = Inr (sim_field s f))) \<and>
   ((\<forall>i\<in>set items'. \<not> isl (item_key i)) \<longrightarrow>
      settings_data (filter (\<lambda>i. \<exists>f\<in>set model_fields. item_key i = Inr f) items') d =
      settings_data items' d) \<and>
   get_sim_settings coerce
     (JObj [(''status'', JStr ''OK''),
            (''data'', JArr [JObj [(''key'', JStr ''roaming-barred''), (''value'', JBool True)]])]) =
   Inr \<lparr>roaming_barred = Some True, non_eu_roaming_barred = None, roaming_sms_disable = None,
        int_voice_barred = None, international_sms_disable = None, mpty_barred = None,
        premium_barred = None, data_barred = None, data_roaming_barred = None,
        non_eu_data_roaming_barred = None\<rparr>"
  using get_sim_settings_status get_sim_settings_field settings_data_ignores
    get_sim_settings_example by blast

theorem get_sim_settings_cases_witness:
  "get_sim_settings (\<lambda>v. None) (JObj [(''status'', JStr ''ERROR'')]) = Inl KontomanagerClientError \<and>
   (\<exists>s. get_sim_settings (\<lambda>v. None) (JObj [(''status'', JStr ''OK''), (''data'', JArr demo_items)]) = Inr s \<and>
        sim_field s ''data_barred'' = Some False \<and> sim_field s ''mpty_barred'' = None) \<and>
   settings_data [demo_items ! 0, demo_items ! 2] Map.empty = settings_data demo_items Map.empty"
proof -
  let ?c = "\<lambda>v::json. None :: bool option"
  let ?kvs = "[(''status'', JStr ''OK''), (''data'', JArr demo_items)]"
  have a: "dict_get [(''status'', JStr ''ERROR'')] ''status'' \<noteq> Some (JStr ''OK'')"
    by (simp add: dict_get_def)
  obtain s where s: "get_sim_settings ?c (JObj ?kvs) = Inr s"
    by (simp add: sim_eval_defs demo_items_def)
  have it: "iter_items (get_or (JArr []) (dict_get ?kvs ''data'')) = Inr demo_items"
    by (simp add: iter_items_def get_or_def dict_get_def)
  have f1: "filter (\<lambda>i. item_key i = Inr ''data_barred'') demo_items = [demo_items ! 0, demo_items ! 2]"
    and f2: "filter (\<lambda>i. item_key i = Inr ''mpty_barred'') demo_items = []"
    and f3: "filter (\<lambda>i. \<exists>f\<in>set model_fields. item_key i = Inr f) demo_items = [demo_items ! 0, demo_items ! 2]"
    and ok: "\<forall>i\<in>set demo_items. \<not> isl (item_key i)"
    by (simp_all add: demo_items_def item_key_def get_or_def dict_get_def model_fields_def)
  have m: "''data_barred'' \<in> set model_fields" "''mpty_barred'' \<in> set model_fields"
    by (simp_all add: model_fields_def)
  note T = get_sim_settings_cases
  from T[of "[(''status'', JStr ''ERROR'')]" ?c] a
  have r1: "get_sim_settings ?c (JObj [(''status'', JStr ''ERROR'')]) = Inl KontomanagerClientError"
    by blast
  from T[of ?kvs ?c s demo_items "''data_barred''"] s it m(1)
  have "validate_value ?c (item_value (last [demo_items ! 0, demo_items ! 2])) = Inr (sim_field s ''data_barred'')"
    unfolding f1 by simp
  then have r2: "sim_field s ''data_barred'' = Some False"
    by (simp add: demo_items_def item_value_def get_or_def dict_get_def validate_value_def)
  from T[of ?kvs ?c s demo_items "''mpty_barred''"] s it m(2)
  have r3: "sim_field s ''mpty_barred'' = None"
    unfolding f2 by simp
  from T[of ?kvs ?c s demo_items "''mpty_barred''" demo_items Map.empty] ok
  have r4: "settings_data [demo_items ! 0, demo_items ! 2] Map.empty = settings_data demo_items Map.empty"
    unfolding f3 by blast
  from r1 s r2 r3 r4 show ?thesis by blast
qed




section \<open>Call forwarding: results\<close>

lemma condition_parse_rule [simp]: "condition (parse_rule page rid) = rid"
  by (simp add: parse_rule_def Let_def)

lemma cf_payload_flags:
  "cf_payload (get_call_forwarding_settings page) token rule_to_set ''btel_akt'' =
     Some (if get_or ''d'' (btel_selected page) = ''a'' then ''a'' else ''d'') \<and>
   cf_payload (get_call_forwarding_settings page) token rule_to_set ''voicemail_play_cli_disable'' =
     Some (if get_or ''d'' (cli_selected page) = ''d'' then ''a'' else ''d'')"
  by (simp add: cf_payload_def get_call_forwarding_settings_def)

lemma emit_rule_apply:
  "emit_rule ra p k =
     (if k = ''nann_sek'' \<and> condition ra = ''nann'' \<and> delay_seconds ra \<noteq> None
      then map_option str_of_int (delay_seconds ra)
      else if k = condition ra @ ''_rn'' \<and> truthy (target_number ra) then target_number ra
      else if k = condition ra @ ''_akt'' then Some (target ra)
      else p k)"
proof -
  have tn: "truthy x \<Longrightarrow> Some (get_or [] x) = x" for x
    by (cases x) (simp_all add: truthy_def get_or_def)
  show ?thesis
    by (cases "delay_seconds ra") (auto simp: emit_rule_def Let_def tn)
qed

lemma cf_payload_rules:
  fixes page token rule_to_set
  defines "payload \<equiv> cf_payload (get_call_forwarding_settings page) token rule_to_set"
  defines "ra \<equiv> (\<lambda>rid. if rid = condition rule_to_set then rule_to_set else parse_rule page rid)"
  assumes c: "c \<in> set rule_ids"
  shows "payload (c @ ''_akt'') = Some (target (ra c)) \<and>
         payload (c @ ''_rn'') = (if truthy (target_number (ra c)) then target_number (ra c) else None) \<and>
         payload ''nann_sek'' = map_option str_of_int (delay_seconds (ra ''nann''))"
proof -
  define r1 where "r1 = ra ''alle''"
  define r2 where "r2 = ra ''nann''"
  define r3 where "r3 = ra ''wtel''"
  define r4 where "r4 = ra ''nerr''"
  have cs: "condition r1 = ''alle''" "condition r2 = ''nann''" "condition r3 = ''wtel''"
    "condition r4 = ''nerr''"
    by (simp_all add: r1_def r2_def r3_def r4_def ra_def)
  have p: "payload =
      (emit_rule r4 (emit_rule r3 (emit_rule r2 (emit_rule r1 [''dosubmit'' \<mapsto> ''1'', ''token'' \<mapsto> token]))))
        (''btel_akt'' \<mapsto> (if editable_on_phone (get_call_forwarding_settings page) then ''a'' else ''d''),
         ''voicemail_play_cli_disable'' \<mapsto>
           (if voicemail_play_cli_disable (get_call_forwarding_settings page) then ''a'' else ''d''))"
    by (simp add: payload_def cf_payload_def get_call_forwarding_settings_def rule_ids_def
        r1_def r2_def r3_def r4_def ra_def)
  from c consider "c = ''alle''" | "c = ''nann''" | "c = ''wtel''" | "c = ''nerr''"
    by (auto simp: rule_ids_def)
  then show ?thesis
  proof cases
    case 1
    then show ?thesis unfolding p
      by (simp add: emit_rule_apply cs r1_def[symmetric] r2_def[symmetric] r3_def[symmetric] r4_def[symmetric])
  next
    case 2
    then show ?thesis unfolding p
      by (simp add: emit_rule_apply cs r1_def[symmetric] r2_def[symmetric] r3_def[symmetric] r4_def[symmetric])
  next
    case 3
    then show ?thesis unfolding p
      by (simp add: emit_rule_apply cs r1_def[symmetric] r2_def[symmetric] r3_def[symmetric] r4_def[symmetric])
  next
    case 4
    then show ?thesis unfolding p
      by (simp add: emit_rule_apply cs r1_def[symmetric] r2_def[symmetric] r3_def[symmetric] r4_def[symmetric])
  qed
qed

text \<open>
  The frame of an update: for each of the four conditions other than the requested one the
  payload carries the target of the current rule, its target number when it has a
  non-empty one, and for the no-answer condition its delay; the rule of the requested
  condition is the caller's.
\<close>

lemma cf_payload_frame:
  assumes "c \<in> set rule_ids" "c \<noteq> condition rule_to_set"
  shows "cf_payload (get_call_forwarding_settings page) token rule_to_set (c @ ''_akt'') =
           Some (target (parse_rule page c)) \<and>
         cf_payload (get_call_forwarding_settings page) token rule_to_set (c @ ''_rn'') =
           (if truthy (target_number (parse_rule page c)) then target_number (parse_rule page c)
            else None) \<and>
         (c = ''nann'' \<longrightarrow>
            cf_payload (get_call_forwarding_settings page) token rule_to_set ''nann_sek'' =
              map_option str_of_int (delay_seconds (parse_rule page ''nann'')))"
  using cf_payload_rules[OF assms(1), of page token rule_to_set] assms(2) by auto

lemma cf_payload_replaced:
  assumes "condition rule_to_set \<in> set rule_ids"
  shows "cf_payload (get_call_forwarding_settings page) token rule_to_set
           (condition rule_to_set @ ''_akt'') = Some (target rule_to_set)"
  using cf_payload_rules[OF assms, of page token rule_to_set] by simp

text \<open>
  Claim C1. The update must re-emit both page-wide flags with the values the page shows.
  On a page whose \<open>voicemail_play_cli_disable\<close> selector has \<open>d\<close> selected, the payload
  that \<open>set_call_forwarding_rule\<close> posts carries \<open>a\<close> for it; the rules of the other
  conditions and the flag \<open>btel_akt\<close> are re-emitted as they are.
\<close>

theorem set_call_forwarding_rule_cli_flag:
  "cli_selected demo_cf_page = Some ''d'' \<and>
   (\<exists>payload.
      set_call_forwarding_rule demo_cf_page demo_cf_page
        (\<lambda>p. \<lparr>status_ok = True, resp_text = ''OK''\<rparr>) demo_rule =
        (Inr (''Successfully updated call forwarding rule for condition '' @ [CHR 0x27] @ ''wtel'' @
              [CHR 0x27] @ ''.''),
         [Get ''einstellungen_rufumleitung.php'', Get ''einstellungen_rufumleitung.php'',
          Post ''einstellungen_rufumleitung.php'' payload]) \<and>
      payload ''voicemail_play_cli_disable'' = Some ''a'' \<and>
      payload ''btel_akt'' = Some ''a'' \<and>
      payload ''alle_akt'' = Some ''a'' \<and>
      payload ''alle_rn'' = Some ''+436641234567'' \<and>
      payload ''nann_akt'' = Some ''b'' \<and>
      payload ''nann_rn'' = None \<and>
      payload ''nann_sek'' = Some ''20'' \<and>
      payload ''wtel_akt'' = Some ''b'' \<and>
      payload ''nerr_akt'' = Some ''d'')"
proof -
  define payload where
    "payload = cf_payload (get_call_forwarding_settings demo_cf_page) ''tok'' demo_rule"
  have run: "set_call_forwarding_rule demo_cf_page demo_cf_page
        (\<lambda>p. \<lparr>status_ok = True, resp_text = ''OK''\<rparr>) demo_rule =
        (Inr (''Successfully updated call forwarding rule for condition '' @ [CHR 0x27] @ ''wtel'' @
              [CHR 0x27] @ ''.''),
         [Get ''einstellungen_rufumleitung.php'', Get ''einstellungen_rufumleitung.php'',
          Post ''einstellungen_rufumleitung.php'' payload])"
    unfolding set_call_forwarding_rule_def payload_def[symmetric] Let_def
    by (simp add: demo_cf_page_def demo_rule_def truthy_def get_or_def lower_def lower_char_def
        payload_def)
  have ids: "''alle'' \<in> set rule_ids" "''nann'' \<in> set rule_ids" "''wtel'' \<in> set rule_ids"
    "''nerr'' \<in> set rule_ids" by (simp_all add: rule_ids_def)
  have sel: "cli_selected demo_cf_page = Some ''d''" by (simp add: demo_cf_page_def)
  have flags: "payload ''voicemail_play_cli_disable'' = Some ''a''" "payload ''btel_akt'' = Some ''a''"
    using cf_payload_flags[of demo_cf_page "''tok''" demo_rule]
    by (simp_all add: payload_def demo_cf_page_def get_or_def)
  have pr: "parse_rule demo_cf_page ''alle'' =
              \<lparr>condition = ''alle'', target = ''a'', target_number = Some ''+436641234567'',
               delay_seconds = None\<rparr>"
    "parse_rule demo_cf_page ''nann'' =
              \<lparr>condition = ''nann'', target = ''b'', target_number = None, delay_seconds = Some 20\<rparr>"
    "parse_rule demo_cf_page ''nerr'' =
              \<lparr>condition = ''nerr'', target = ''d'', target_number = None, delay_seconds = None\<rparr>"
    by (simp_all add: parse_rule_def demo_cf_page_def truthy_def get_or_def isdigit_def is_digit_def
        nat_of_digits_def digit_val_def)
  have s20: "str_of_int 20 = ''20''" by (simp add: str_of_int_def)
  have alle: "payload ''alle_akt'' = Some ''a''" "payload ''alle_rn'' = Some ''+436641234567''"
    using cf_payload_frame[OF ids(1), of demo_rule demo_cf_page "''tok''"]
    by (simp_all add: payload_def demo_rule_def pr truthy_def)
  have nann: "payload ''nann_akt'' = Some ''b''" "payload ''nann_rn'' = None"
    "payload ''nann_sek'' = Some ''20''"
    using cf_payload_frame[OF ids(2), of demo_rule demo_cf_page "''tok''"]
    by (simp_all add: payload_def demo_rule_def pr truthy_def s20)
  have nerr: "payload ''nerr_akt'' = Some ''d''"
    using cf_payload_frame[OF ids(4), of demo_rule demo_cf_page "''tok''"]
    by (simp_all add: payload_def demo_rule_def pr truthy_def)
  have wtel: "payload ''wtel_akt'' = Some ''b''"
    using cf_payload_replaced[of demo_rule demo_cf_page "''tok''"] ids(3)
    by (simp add: payload_def demo_rule_def)
  from sel run flags alle nann nerr wtel show ?thesis by blast
qed

end
